theory Spec2Isabelle
  imports Complex_Main
begin

section \<open>The recurring-job scheduler of \<^verbatim>\<open>worker/routine-job.ts\<close>\<close>

text \<open>
  The class \<^verbatim>\<open>RoutineJob\<close> keeps the five raw fields of a cron expression and the
  Date of its last run. \<^verbatim>\<open>shouldRun\<close> decides on each poll whether the job is due.
  The class is embedded as a record with explicit state passing; the built-ins of the
  runtime that the class calls (\<^verbatim>\<open>String.prototype.split\<close>, \<^verbatim>\<open>includes\<close>,
  \<^verbatim>\<open>Number\<close>, \<^verbatim>\<open>parseInt\<close>, \<^verbatim>\<open>Number.prototype.toString\<close> and the local-time
  accessors of \<^verbatim>\<open>Date\<close>) are embedded after ECMA-262.

  Conventions of the embedding:
  \<^item> a string is a \<^typ>\<open>string\<close>, one \<^typ>\<open>char\<close> per code unit below 256;
  \<^item> the \<^verbatim>\<open>value\<close> argument of \<^verbatim>\<open>matchesField\<close> is an \<^typ>\<open>int\<close>: the callers pass
    calendar components, which are integers. \<^verbatim>\<open>toString\<close> prints it as the runtime
    prints the double of that value: the shortest digits that read back as the double,
    with an exponent from \<open>10 ^ 21\<close> on;
  \<^item> the result of \<^verbatim>\<open>Number\<close> and \<^verbatim>\<open>parseInt\<close> is a \<open>number\<close>: NaN, an infinity
    or the exact mathematical value of the literal. The rounding of that value to a
    double is not part of the embedding of these two functions, which is therefore
    exact on integers of magnitude below \<open>2 ^ 53\<close>;
  \<^item> \<^verbatim>\<open>shouldRun\<close> reads the clock with \<^verbatim>\<open>new Date()\<close>; the Date it reads is an
    argument of the embedded function, which returns the decision together with the
    object as the call leaves it;
  \<^item> \<^verbatim>\<open>run\<close> writes to the logger and returns null; it has no part in the decision
    and is not embedded.
\<close>

subsection \<open>Strings\<close>

text \<open>
  \<^verbatim>\<open>s.split(sep)\<close> for a separator of one code unit: the string is cut at every
  occurrence of the separator, empty pieces are kept, and the empty string gives one
  empty piece.
\<close>

fun split_str :: "char \<Rightarrow> string \<Rightarrow> string list" where
  "split_str sep [] = [[]]"
| "split_str sep (c # cs) =
     (if c = sep then [] # split_str sep cs
      else (case split_str sep cs of
              [] \<Rightarrow> [[c]]
            | p # ps \<Rightarrow> (c # p) # ps))"

text \<open>\<^verbatim>\<open>s.includes(c)\<close> for a search string of one code unit.\<close>

definition includes_str :: "string \<Rightarrow> char \<Rightarrow> bool" where
  "includes_str s c = List.member s c"

text \<open>\<^verbatim>\<open>arr.includes(x)\<close> on an array of strings: membership by string equality.\<close>

definition includes_arr :: "string list \<Rightarrow> string \<Rightarrow> bool" where
  "includes_arr arr x = List.member arr x"

subsection \<open>Numbers and their conversions\<close>

definition digit_char :: "nat \<Rightarrow> char" where
  "digit_char d = ''0123456789'' ! d"

text \<open>The decimal digits of a natural number, most significant first.\<close>

fun digits :: "nat \<Rightarrow> string" where
  "digits n = (if n < 10 then [digit_char n] else digits (n div 10) @ [digit_char (n mod 10)])"

declare digits.simps [simp del]

text \<open>
  A number of the runtime is a double. \<open>toDouble c\<close> is the double nearest to the
  natural number \<open>c\<close>, a tie going to the even significand of 53 bits (the rounding
  of ECMA-262 to a Number value): \<open>shiftOf c\<close> is the number of low bits that do not
  fit. A result of \<open>2 ^ 1024\<close> or more stands for the infinity; it is equal to no
  finite double.
\<close>

function shiftOf :: "nat \<Rightarrow> nat" where
  "shiftOf c = (if c < 2 ^ 53 then 0 else Suc (shiftOf (c div 2)))"
  by pat_completeness auto
termination
  by (relation "measure id") auto

declare shiftOf.simps [simp del]

definition toDouble :: "nat \<Rightarrow> nat" where
  "toDouble c =
     (let sh = shiftOf c; q = c div 2 ^ sh; r = c mod 2 ^ sh in
      if 2 * r < 2 ^ sh \<or> (2 * r = 2 ^ sh \<and> even q) then q * 2 ^ sh else Suc q * 2 ^ sh)"

text \<open>
  \<^verbatim>\<open>value.toString()\<close> on an integer-valued number (ECMA-262 Number::toString with
  radix 10). For a positive \<open>m\<close> the standard takes integers \<open>n\<close>, \<open>k\<close> and \<open>s\<close> with
  \<open>10 ^ (k - 1) \<le> s < 10 ^ k\<close> such that \<open>s * 10 ^ (n - k)\<close> reads back as \<open>m\<close>, with
  \<open>k\<close> as small as possible and then \<open>s * 10 ^ (n - k)\<close> as close to \<open>m\<close> as possible,
  an even \<open>s\<close> winning a tie. For an integer \<open>m\<close> of \<open>D\<close> digits \<open>k\<close> is at most \<open>D\<close>
  and \<open>n\<close> is \<open>D\<close> or \<open>D + 1\<close>; for given \<open>n\<close> and \<open>k\<close> only the two multiples of
  \<open>10 ^ (n - k)\<close> around \<open>m\<close> can be the closest ones that read back as \<open>m\<close>
  (\<open>nearby\<close>). The digits of \<open>s\<close> are printed followed by \<open>n - k\<close> zeros when
  \<open>n \<le> 21\<close>, and with an exponent otherwise: \<open>10 ^ 21\<close> prints as \<^verbatim>\<open>1e+21\<close>. The
  argument is the value of a number, so it is an integer that a double holds; for any
  other integer no candidate reads back and its digits are printed.
\<close>

definition fits :: "nat \<Rightarrow> nat \<Rightarrow> nat \<times> nat \<Rightarrow> bool" where
  "fits m k = (\<lambda>(n, s). 10 ^ (k - 1) \<le> s \<and> s < 10 ^ k \<and> toDouble (s * 10 ^ (n - k)) = m)"

definition nearby :: "nat \<Rightarrow> nat \<Rightarrow> (nat \<times> nat) list" where
  "nearby m k =
     (let D = length (digits m) in
      [(D, m div 10 ^ (D - k)), (D, Suc (m div 10 ^ (D - k))),
       (Suc D, m div 10 ^ (Suc D - k)), (Suc D, Suc (m div 10 ^ (Suc D - k)))])"

definition distance :: "nat \<Rightarrow> nat \<Rightarrow> nat \<times> nat \<Rightarrow> nat" where
  "distance m k =
     (\<lambda>(n, s). 2 * (if m \<le> s * 10 ^ (n - k) then s * 10 ^ (n - k) - m
                       else m - s * 10 ^ (n - k)) + s mod 2)"

definition candidates :: "nat \<Rightarrow> nat \<Rightarrow> (nat \<times> nat) list" where
  "candidates m k = sort_key (distance m k) (filter (fits m k) (nearby m k))"

definition numberToString :: "nat \<Rightarrow> string" where
  "numberToString m =
     (if m = 0 then ''0''
      else
        (case find (\<lambda>k. candidates m k \<noteq> []) [1..<Suc (length (digits m))] of
           None \<Rightarrow> digits m
         | Some k \<Rightarrow>
             (case candidates m k of
                [] \<Rightarrow> digits m
              | (n, s) # _ \<Rightarrow>
                  if n \<le> 21 then digits s @ replicate (n - k) (CHR ''0'')
                  else if k = 1 then digits s @ ''e+'' @ digits (n - 1)
                  else (case digits s of
                          [] \<Rightarrow> ''e+'' @ digits (n - 1)
                        | d # ds \<Rightarrow> d # CHR ''.'' # ds @ ''e+'' @ digits (n - 1)))))"

definition toString :: "int \<Rightarrow> string" where
  "toString v = (if v < 0 then CHR ''-'' # numberToString (nat (- v)) else numberToString (nat v))"

text \<open>
  A number as \<^verbatim>\<open>Number\<close> and \<^verbatim>\<open>parseInt\<close> return it. \<open>Fin q\<close> is the finite number of
  mathematical value \<open>q\<close>.
\<close>

datatype number = NaN | Fin rat | PosInfinity | NegInfinity

text \<open>\<^verbatim>\<open>a <= b\<close> on numbers: false as soon as one side is NaN.\<close>

fun num_le :: "number \<Rightarrow> number \<Rightarrow> bool" where
  "num_le NaN b = False"
| "num_le a NaN = False"
| "num_le NegInfinity b = True"
| "num_le a PosInfinity = True"
| "num_le PosInfinity b = False"
| "num_le a NegInfinity = False"
| "num_le (Fin x) (Fin y) = (x \<le> y)"

text \<open>\<^verbatim>\<open>a > b\<close> on numbers.\<close>

fun num_gt :: "number \<Rightarrow> number \<Rightarrow> bool" where
  "num_gt NaN b = False"
| "num_gt a NaN = False"
| "num_gt NegInfinity b = False"
| "num_gt a PosInfinity = False"
| "num_gt PosInfinity b = True"
| "num_gt a NegInfinity = True"
| "num_gt (Fin x) (Fin y) = (y < x)"

text \<open>\<^verbatim>\<open>a === b\<close> on numbers: NaN is equal to nothing, itself included.\<close>

definition num_eq :: "number \<Rightarrow> number \<Rightarrow> bool" where
  "num_eq a b = (a \<noteq> NaN \<and> a = b)"

fun num_neg :: "number \<Rightarrow> number" where
  "num_neg NaN = NaN"
| "num_neg (Fin x) = Fin (- x)"
| "num_neg PosInfinity = NegInfinity"
| "num_neg NegInfinity = PosInfinity"

text \<open>
  White space and line terminators (ECMA-262 StrWhiteSpaceChar) below code unit 256:
  TAB, LF, VT, FF, CR, SP and NBSP.
\<close>

definition isStrWhiteSpaceChar :: "char \<Rightarrow> bool" where
  "isStrWhiteSpaceChar c =
     (c = CHR 0x09 \<or> c = CHR 0x0A \<or> c = CHR 0x0B \<or> c = CHR 0x0C \<or> c = CHR 0x0D
      \<or> c = CHR 0x20 \<or> c = CHR 0xA0)"

definition trimStart :: "string \<Rightarrow> string" where
  "trimStart s = dropWhile isStrWhiteSpaceChar s"

definition trim :: "string \<Rightarrow> string" where
  "trim s = rev (dropWhile isStrWhiteSpaceChar (rev (trimStart s)))"

text \<open>The value of a code unit as a digit: \<open>0\<close> to \<open>9\<close>, then the letters in either case.\<close>

definition digitValue :: "char \<Rightarrow> nat option" where
  "digitValue c =
     (let n = (of_char c :: nat) in
      if 48 \<le> n \<and> n \<le> 57 then Some (n - 48)
      else if 97 \<le> n \<and> n \<le> 122 then Some (n - 87)
      else if 65 \<le> n \<and> n \<le> 90 then Some (n - 55)
      else None)"

definition isRadixDigit :: "nat \<Rightarrow> char \<Rightarrow> bool" where
  "isRadixDigit R c = (case digitValue c of None \<Rightarrow> False | Some d \<Rightarrow> d < R)"

definition radixValue :: "nat \<Rightarrow> string \<Rightarrow> nat" where
  "radixValue R ds =
     foldl (\<lambda>acc c. acc * R + (case digitValue c of None \<Rightarrow> 0 | Some d \<Rightarrow> d)) 0 ds"

text \<open>
  \<^verbatim>\<open>parseInt(string)\<close> without a radix (ECMA-262 19.2.5): leading white space is
  dropped, then a sign, then a \<^verbatim>\<open>0x\<close> or \<^verbatim>\<open>0X\<close> prefix, which selects radix 16; the
  longest run of digits of the radix is read, whatever follows it is ignored, and an
  empty run gives NaN.
\<close>

fun stripSign :: "string \<Rightarrow> int \<times> string" where
  "stripSign [] = (1, [])"
| "stripSign (c # cs) =
     (if c = CHR ''-'' then (- 1, cs) else if c = CHR ''+'' then (1, cs) else (1, c # cs))"

fun stripPrefix :: "string \<Rightarrow> nat \<times> string" where
  "stripPrefix (a # b # cs) =
     (if a = CHR ''0'' \<and> (b = CHR ''x'' \<or> b = CHR ''X'') then (16, cs) else (10, a # b # cs))"
| "stripPrefix s = (10, s)"

definition parseInt :: "string \<Rightarrow> number" where
  "parseInt string =
     (case stripSign (trimStart string) of (sign, S) \<Rightarrow>
        (case stripPrefix S of (R, S') \<Rightarrow>
           (let Z = takeWhile (isRadixDigit R) S' in
            if Z = [] then NaN else Fin (of_int (sign * int (radixValue R Z))))))"

text \<open>
  \<^verbatim>\<open>Number(string)\<close> (ECMA-262 StringToNumber): white space is trimmed at both ends;
  what remains is empty (the value 0), a binary, octal or hexadecimal integer literal
  without a sign, or a decimal literal with an optional sign: \<^verbatim>\<open>Infinity\<close>, or digits
  with an optional fraction and an optional exponent. Anything else is NaN.
\<close>

definition allDigits :: "nat \<Rightarrow> string \<Rightarrow> nat option" where
  "allDigits R ds =
     (if ds \<noteq> [] \<and> list_all (isRadixDigit R) ds then Some (radixValue R ds) else None)"

fun nonDecimalIntegerLiteral :: "string \<Rightarrow> nat option" where
  "nonDecimalIntegerLiteral (a # b # ds) =
     (if a \<noteq> CHR ''0'' then None
      else if b = CHR ''x'' \<or> b = CHR ''X'' then allDigits 16 ds
      else if b = CHR ''o'' \<or> b = CHR ''O'' then allDigits 8 ds
      else if b = CHR ''b'' \<or> b = CHR ''B'' then allDigits 2 ds
      else None)"
| "nonDecimalIntegerLiteral s = None"

fun signedInteger :: "string \<Rightarrow> int option" where
  "signedInteger [] = None"
| "signedInteger (c # cs) =
     (if c = CHR ''-'' then map_option (\<lambda>n. - int n) (allDigits 10 cs)
      else if c = CHR ''+'' then map_option int (allDigits 10 cs)
      else map_option int (allDigits 10 (c # cs)))"

fun exponentPart :: "string \<Rightarrow> int option" where
  "exponentPart [] = Some 0"
| "exponentPart (c # cs) =
     (if c = CHR ''e'' \<or> c = CHR ''E'' then signedInteger cs else None)"

definition scale10 :: "rat \<Rightarrow> int \<Rightarrow> rat" where
  "scale10 q e = (if 0 \<le> e then q * 10 ^ nat e else q / 10 ^ nat (- e))"

definition strUnsignedDecimalLiteral :: "string \<Rightarrow> number" where
  "strUnsignedDecimalLiteral s =
     (if s = ''Infinity'' then PosInfinity
      else
        (let ip = takeWhile (isRadixDigit 10) s;
             r1 = dropWhile (isRadixDigit 10) s;
             fp = (case r1 of [] \<Rightarrow> [] | c # r \<Rightarrow>
                     if c = CHR ''.'' then takeWhile (isRadixDigit 10) r else []);
             r2 = (case r1 of [] \<Rightarrow> [] | c # r \<Rightarrow>
                     if c = CHR ''.'' then dropWhile (isRadixDigit 10) r else r1)
         in if ip = [] \<and> fp = [] then NaN
            else (case exponentPart r2 of
                    None \<Rightarrow> NaN
                  | Some e \<Rightarrow>
                      Fin (scale10 (of_nat (radixValue 10 ip)
                                    + of_nat (radixValue 10 fp) / 10 ^ length fp) e))))"

fun strDecimalLiteral :: "string \<Rightarrow> number" where
  "strDecimalLiteral [] = NaN"
| "strDecimalLiteral (c # cs) =
     (if c = CHR ''+'' then strUnsignedDecimalLiteral cs
      else if c = CHR ''-'' then num_neg (strUnsignedDecimalLiteral cs)
      else strUnsignedDecimalLiteral (c # cs))"

definition Number :: "string \<Rightarrow> number" where
  "Number str =
     (let t = trim str in
      if t = [] then Fin 0
      else (case nonDecimalIntegerLiteral t of
              Some n \<Rightarrow> Fin (of_nat n)
            | None \<Rightarrow> strDecimalLiteral t))"

subsection \<open>The field matcher\<close>

text \<open>
  \<^verbatim>\<open>matchesField(value, pattern)\<close>. In the range branch the destructuring
  \<^verbatim>\<open>[start, end]\<close> takes the first two pieces and ignores the rest; the pattern
  contains a dash there, so there are at least two pieces.
\<close>

definition matchesField :: "int \<Rightarrow> string \<Rightarrow> bool" where
  "matchesField v pattern =
     (if pattern = ''*'' then True
      else if includes_str pattern (CHR '','') then
        includes_arr (split_str (CHR '','') pattern) (toString v)
      else if includes_str pattern (CHR ''-'') then
        (case map Number (split_str (CHR ''-'') pattern) of
           start # end' # rest \<Rightarrow> num_le start (Fin (of_int v)) \<and> num_le (Fin (of_int v)) end'
         | _ \<Rightarrow> False)
      else num_eq (parseInt pattern) (Fin (of_int v)))"

subsection \<open>Dates\<close>

text \<open>
  A Date as the class sees it: its time value (milliseconds since the epoch, an integer;
  \<^verbatim>\<open>new Date()\<close> is never an invalid Date) and the adjustment, in milliseconds, that
  the host adds to it to get local time (ECMA-262 LocalTZA at that instant). The
  accessors follow ECMA-262 21.4.1; \<open>div\<close> on \<^typ>\<open>int\<close> rounds down, as \<^verbatim>\<open>floor\<close> does.
\<close>

record Date =
  timeValue :: int
  localTZA :: int

definition getTime :: "Date \<Rightarrow> int" where
  "getTime dt = timeValue dt"

definition msPerMinute :: int where
  "msPerMinute = 60000"

definition msPerHour :: int where
  "msPerHour = 3600000"

definition msPerDay :: int where
  "msPerDay = 86400000"

definition Day :: "int \<Rightarrow> int" where
  "Day t = t div msPerDay"

definition DaysInYear :: "int \<Rightarrow> int" where
  "DaysInYear y =
     (if y mod 4 \<noteq> 0 then 365 else if y mod 100 \<noteq> 0 then 366
      else if y mod 400 \<noteq> 0 then 365 else 366)"

definition DayFromYear :: "int \<Rightarrow> int" where
  "DayFromYear y =
     365 * (y - 1970) + (y - 1969) div 4 - (y - 1901) div 100 + (y - 1601) div 400"

text \<open>
  ECMA-262 defines \<^verbatim>\<open>YearFromTime(t)\<close> as the largest year that starts at or before
  \<open>t\<close>. It is computed here from the 400-year cycle of 146097 days: within a cycle the
  year is the quotient by 365 or the year before it. Lemma \<open>YearFromTime_spec\<close> below
  shows that this is the year of the definition.
\<close>

definition YearFromTime :: "int \<Rightarrow> int" where
  "YearFromTime t =
     (let d = Day t; q = d div 146097; r = d mod 146097; k = r div 365 in
      1970 + 400 * q + (if DayFromYear (1970 + k) \<le> r then k else k - 1))"

definition InLeapYear :: "int \<Rightarrow> int" where
  "InLeapYear t = (if DaysInYear (YearFromTime t) = 366 then 1 else 0)"

definition DayWithinYear :: "int \<Rightarrow> int" where
  "DayWithinYear t = Day t - DayFromYear (YearFromTime t)"

definition MonthFromTime :: "int \<Rightarrow> int" where
  "MonthFromTime t =
     (let d = DayWithinYear t; l = InLeapYear t in
      if d < 31 then 0
      else if d < 59 + l then 1
      else if d < 90 + l then 2
      else if d < 120 + l then 3
      else if d < 151 + l then 4
      else if d < 181 + l then 5
      else if d < 212 + l then 6
      else if d < 243 + l then 7
      else if d < 273 + l then 8
      else if d < 304 + l then 9
      else if d < 334 + l then 10
      else 11)"

definition DateFromTime :: "int \<Rightarrow> int" where
  "DateFromTime t =
     (let d = DayWithinYear t; l = InLeapYear t; m = MonthFromTime t in
      if m = 0 then d + 1
      else if m = 1 then d - 30
      else if m = 2 then d - 58 - l
      else if m = 3 then d - 89 - l
      else if m = 4 then d - 119 - l
      else if m = 5 then d - 150 - l
      else if m = 6 then d - 180 - l
      else if m = 7 then d - 211 - l
      else if m = 8 then d - 242 - l
      else if m = 9 then d - 272 - l
      else if m = 10 then d - 303 - l
      else d - 333 - l)"

definition WeekDay :: "int \<Rightarrow> int" where
  "WeekDay t = (Day t + 4) mod 7"

definition HourFromTime :: "int \<Rightarrow> int" where
  "HourFromTime t = (t div msPerHour) mod 24"

definition MinFromTime :: "int \<Rightarrow> int" where
  "MinFromTime t = (t div msPerMinute) mod 60"

definition LocalTime :: "Date \<Rightarrow> int" where
  "LocalTime dt = timeValue dt + localTZA dt"

definition getMinutes :: "Date \<Rightarrow> int" where
  "getMinutes dt = MinFromTime (LocalTime dt)"

definition getHours :: "Date \<Rightarrow> int" where
  "getHours dt = HourFromTime (LocalTime dt)"

definition getDate :: "Date \<Rightarrow> int" where
  "getDate dt = DateFromTime (LocalTime dt)"

definition getMonth :: "Date \<Rightarrow> int" where
  "getMonth dt = MonthFromTime (LocalTime dt)"

definition getDay :: "Date \<Rightarrow> int" where
  "getDay dt = WeekDay (LocalTime dt)"

subsection \<open>The class \<^verbatim>\<open>RoutineJob\<close>\<close>

text \<open>
  The fields of the class. The logger is an object of the host, of which the scheduler
  only keeps the reference: its type is a parameter.
\<close>

record 'l RoutineJob =
  name :: string
  logger :: 'l
  lastRun :: "Date option"
  minute :: string
  hour :: string
  day :: string
  month :: string
  weekday :: string

datatype error = Error string

text \<open>The constructor: \<^verbatim>\<open>throw new Error(...)\<close> is the left injection.\<close>

definition RoutineJob_new :: "string \<Rightarrow> string \<Rightarrow> 'l \<Rightarrow> error + 'l RoutineJob" where
  "RoutineJob_new nm cronExpression lg =
     (let cronParts = split_str (CHR '' '') cronExpression in
      if length cronParts \<noteq> 5 then Inl (Error ''Invalid cron expression'')
      else Inr \<lparr>name = nm, logger = lg, lastRun = None,
                minute = cronParts ! 0, hour = cronParts ! 1, day = cronParts ! 2,
                month = cronParts ! 3, weekday = cronParts ! 4\<rparr>)"

definition matchesSchedule :: "'l RoutineJob \<Rightarrow> Date \<Rightarrow> bool" where
  "matchesSchedule this dt =
     (if \<not> matchesField (getMinutes dt) (minute this) then False
      else if \<not> matchesField (getHours dt) (hour this) then False
      else if \<not> matchesField (getDate dt) (day this) then False
      else if \<not> matchesField (getMonth dt + 1) (month this) then False
      else if \<not> matchesField (getDay dt) (weekday this) then False
      else True)"

text \<open>
  \<^verbatim>\<open>shouldRun()\<close>, with the Date that \<^verbatim>\<open>new Date()\<close> gives as an argument, returns
  the decision and the object as the call leaves it.
\<close>

definition shouldRun :: "Date \<Rightarrow> 'l RoutineJob \<Rightarrow> bool \<times> 'l RoutineJob" where
  "shouldRun now this =
     (if (case lastRun this of
            None \<Rightarrow> True
          | Some prev \<Rightarrow> getTime now - getTime prev > 60000)
      then (if matchesSchedule this now
            then (True, this\<lparr>lastRun := Some now\<rparr>)
            else (False, this))
      else (False, this))"

definition getName :: "'l RoutineJob \<Rightarrow> string" where
  "getName this = name this"

text \<open>
  A poller calls \<^verbatim>\<open>shouldRun\<close> once per tick. \<open>final\<close> is the object after the calls
  at the given Dates, \<open>firings\<close> the Dates at which a call returned true, in order.
\<close>

fun final :: "'l RoutineJob \<Rightarrow> Date list \<Rightarrow> 'l RoutineJob" where
  "final this [] = this"
| "final this (now # rest) = final (snd (shouldRun now this)) rest"

fun firings :: "'l RoutineJob \<Rightarrow> Date list \<Rightarrow> Date list" where
  "firings this [] = []"
| "firings this (now # rest) =
     (if fst (shouldRun now this) then now # firings (snd (shouldRun now this)) rest
      else firings (snd (shouldRun now this)) rest)"

subsection \<open>Notions of the specification\<close>

text \<open>
  The specification speaks of the whitespace-separated tokens of an expression and of
  the decimal representation of an integer. Both are written out here after its words,
  to be compared with what the class computes. \<open>decimalNumeral v\<close> is the decimal
  representation of \<open>v\<close>: its digits, after a minus sign when it is negative.
  \<open>isCanonicalDecimal\<close> says of a string that it is such a numeral: \<^verbatim>\<open>0\<close>, or digits
  that do not start with a zero, with or without a minus sign in front.
  \<open>readDecimal\<close> is the integer that a numeral denotes. \<open>isDecimalInteger\<close> is the
  wider notion that also admits leading zeros.
\<close>

fun whitespace_pieces :: "string \<Rightarrow> string list" where
  "whitespace_pieces [] = [[]]"
| "whitespace_pieces (c # cs) =
     (if isStrWhiteSpaceChar c then [] # whitespace_pieces cs
      else (case whitespace_pieces cs of
              [] \<Rightarrow> [[c]]
            | p # ps \<Rightarrow> (c # p) # ps))"

definition whitespace_tokens :: "string \<Rightarrow> string list" where
  "whitespace_tokens s = filter (\<lambda>p. p \<noteq> []) (whitespace_pieces s)"

definition isDecimalInteger :: "string \<Rightarrow> bool" where
  "isDecimalInteger s =
     (case s of
        [] \<Rightarrow> False
      | c # r \<Rightarrow> if c = CHR ''-'' then allDigits 10 r \<noteq> None else allDigits 10 s \<noteq> None)"





subsection \<open>The scenario of the specification\<close>

text \<open>
  The job of the scenario, with the schedule \<^verbatim>\<open>0 9 * * 1\<close>, and four instants on a host
  five hours behind UTC: Monday 1 January 2024 at 09:00:00, 09:00:30 and 09:01:05 local
  time, and Monday 8 January 2024 at 09:00:00.
\<close>

definition weekly_job :: "unit RoutineJob" where
  "weekly_job =
     \<lparr>name = ''weekly'', logger = (), lastRun = None,
      minute = ''0'', hour = ''9'', day = ''*'', month = ''*'', weekday = ''1''\<rparr>"

definition monday_0900 :: Date where
  "monday_0900 = \<lparr>timeValue = 1704117600000, localTZA = - 18000000\<rparr>"

definition monday_090030 :: Date where
  "monday_090030 = \<lparr>timeValue = 1704117630000, localTZA = - 18000000\<rparr>"

definition monday_090105 :: Date where
  "monday_090105 = \<lparr>timeValue = 1704117665000, localTZA = - 18000000\<rparr>"

definition next_monday_0900 :: Date where
  "next_monday_0900 = \<lparr>timeValue = 1704722400000, localTZA = - 18000000\<rparr>"

section \<open>Properties\<close>

subsection \<open>The calendar\<close>

lemma DayFromYear_period: "DayFromYear (y + 400 * q) = DayFromYear y + 146097 * q"
proof -
  have a: "(y + 400 * q - 1969) div 4 = (y - 1969) div 4 + 100 * q" by linarith
  have b: "(y + 400 * q - 1901) div 100 = (y - 1901) div 100 + 4 * q" by linarith
  have c: "(y + 400 * q - 1601) div 400 = (y - 1601) div 400 + q" by linarith
  show ?thesis unfolding DayFromYear_def a b c by (simp add: algebra_simps)
qed

lemma DayFromYear_1970:
  "DayFromYear (1970 + j) = 365 * j + (j + 1) div 4 - (j + 69) div 100 + (j + 369) div 400"
  by (simp add: DayFromYear_def ac_simps)

lemma DayFromYear_lower:
  assumes "0 \<le> j"
  shows "365 * j \<le> DayFromYear (1970 + j)"
proof -
  define a where "a = (j + 1) div 4"
  define b where "b = (j + 69) div 100"
  define c where "c = (j + 369) div 400"
  have a: "j + 1 < 4 * a + 4" "0 \<le> a" unfolding a_def using assms by linarith+
  have b: "100 * b \<le> j + 69" unfolding b_def by linarith
  have c: "0 \<le> c" unfolding c_def using assms by linarith
  have "b \<le> a"
  proof (cases "j < 31")
    case True
    then have "b = 0" unfolding b_def using assms by simp
    then show ?thesis using a by simp
  next
    case False
    then show ?thesis using a b by linarith
  qed
  then show ?thesis
    unfolding DayFromYear_1970 a_def [symmetric] b_def [symmetric] c_def [symmetric]
    using c by linarith
qed

lemma DayFromYear_upper:
  assumes "- 1 \<le> j" and "j \<le> 400"
  shows "DayFromYear (1970 + j) \<le> 365 * j + 365"
proof -
  define a where "a = (j + 1) div 4"
  define b where "b = (j + 69) div 100"
  define c where "c = (j + 369) div 400"
  have a: "4 * a \<le> j + 1" unfolding a_def by linarith
  have b: "0 \<le> b" unfolding b_def using assms by linarith
  have c: "400 * c \<le> j + 369" unfolding c_def by linarith
  show ?thesis
    unfolding DayFromYear_1970 a_def [symmetric] b_def [symmetric] c_def [symmetric]
    using a b c assms by linarith
qed

lemma YearFromTime_spec:
  "DayFromYear (YearFromTime t) \<le> Day t \<and> Day t < DayFromYear (YearFromTime t + 1)"
proof -
  define d where "d = Day t"
  define q where "q = d div 146097"
  define r where "r = d mod 146097"
  define k where "k = r div 365"
  have d: "d = 146097 * q + r" unfolding q_def r_def by simp
  have r: "0 \<le> r" "r < 146097" unfolding r_def by simp_all
  have k: "365 * k \<le> r" "r < 365 * k + 365" unfolding k_def by linarith+
  have k0: "0 \<le> k" "k \<le> 400" using k r by linarith+
  have Y: "YearFromTime t = (1970 + (if DayFromYear (1970 + k) \<le> r then k else k - 1)) + 400 * q"
    unfolding YearFromTime_def Let_def d_def [symmetric] q_def [symmetric] r_def [symmetric]
      k_def [symmetric] by simp
  show ?thesis
  proof (cases "DayFromYear (1970 + k) \<le> r")
    case True
    have "365 * (k + 1) \<le> DayFromYear (1970 + (k + 1))"
      by (rule DayFromYear_lower) (use k0 in linarith)
    then have "365 * k + 365 \<le> DayFromYear (1970 + (k + 1))"
      by simp
    then have "r < DayFromYear (1970 + (k + 1))"
      using k by linarith
    then have "d < DayFromYear ((1970 + (k + 1)) + 400 * q)"
      unfolding DayFromYear_period d by linarith
    moreover have "DayFromYear ((1970 + k) + 400 * q) \<le> d"
      unfolding DayFromYear_period d using True by linarith
    ultimately show ?thesis
      unfolding Y d_def [symmetric] using True by (simp add: algebra_simps)
  next
    case False
    have "DayFromYear (1970 + (k - 1)) \<le> 365 * (k - 1) + 365"
      by (rule DayFromYear_upper) (use k0 in linarith)+
    then have "DayFromYear (1970 + (k - 1)) \<le> 365 * k"
      by simp
    then have "DayFromYear (1970 + (k - 1)) \<le> r"
      using k by linarith
    then have "DayFromYear ((1970 + (k - 1)) + 400 * q) \<le> d"
      unfolding DayFromYear_period d by linarith
    moreover have "d < DayFromYear ((1970 + k) + 400 * q)"
      unfolding DayFromYear_period d using False by linarith
    ultimately show ?thesis
      unfolding Y d_def [symmetric] using False by (simp add: algebra_simps)
  qed
qed

subsection \<open>Strings and numerals\<close>

lemma includes_str_iff: "includes_str s c \<longleftrightarrow> c \<in> set s"
  by (simp add: includes_str_def)

lemma includes_arr_iff: "includes_arr arr x \<longleftrightarrow> x \<in> set arr"
  by (simp add: includes_arr_def)

lemma split_str_nonempty: "split_str sep s \<noteq> []"
  by (induction s) (auto split: list.splits)

lemma split_str_no_sep: "sep \<notin> set a \<Longrightarrow> split_str sep a = [a]"
  by (induction a) auto

lemma split_str_append:
  "sep \<notin> set a \<Longrightarrow> split_str sep (a @ sep # rest) = a # split_str sep rest"
  by (induction a) auto

lemma split_str_length: "length (split_str sep s) = Suc (length (filter (\<lambda>c. c = sep) s))"
  by (induction s) (auto split: list.splits simp: split_str_nonempty)

lemma split_str_pieces: "p \<in> set (split_str sep s) \<Longrightarrow> sep \<notin> set p"
  by (induction s arbitrary: p) (auto split: list.splits if_splits)

lemma digit_cases:
  "d < 10 \<Longrightarrow>
   d = 0 \<or> d = 1 \<or> d = 2 \<or> d = 3 \<or> d = 4 \<or> d = 5 \<or> d = 6 \<or> d = 7 \<or> d = 8 \<or> d = (9::nat)"
  by arith

lemma digitValue_digit_char: "d < 10 \<Longrightarrow> digitValue (digit_char d) = Some d"
  using digit_cases [of d] by (auto simp: digit_char_def digitValue_def)

lemma digit_char_in: "d < 10 \<Longrightarrow> digit_char d \<in> set ''0123456789''"
  using digit_cases [of d] by (auto simp: digit_char_def)


lemma radixValue_snoc:
  "radixValue R (ds @ [c]) = radixValue R ds * R + (case digitValue c of None \<Rightarrow> 0 | Some d \<Rightarrow> d)"
  by (simp add: radixValue_def)

lemma radixValue_digits: "radixValue 10 (digits n) = n"
proof (induction n rule: digits.induct)
  case (1 n)
  show ?case
  proof (cases "n < 10")
    case True
    then show ?thesis
      by (simp add: digits.simps [of n] radixValue_def digitValue_digit_char)
  next
    case False
    then have "radixValue 10 (digits (n div 10)) = n div 10"
      using "1.IH" by simp
    with False show ?thesis
      by (simp add: digits.simps [of n] radixValue_snoc digitValue_digit_char)
  qed
qed

lemma digits_chars: "set (digits n) \<subseteq> set ''0123456789''"
proof (induction n rule: digits.induct)
  case (1 n)
  show ?case
  proof (cases "n < 10")
    case True
    then show ?thesis
      using digit_char_in [of n] by (simp add: digits.simps [of n])
  next
    case False
    then have "set (digits (n div 10)) \<subseteq> set ''0123456789''"
      using "1.IH" by simp
    with False show ?thesis
      using digit_char_in [of "n mod 10"] by (simp add: digits.simps [of n])
  qed
qed

lemma digits_nonempty: "digits n \<noteq> []"
  by (simp add: digits.simps [of n])


subsection \<open>Doubles and the numerals of \<open>toString\<close>\<close>

lemma shiftOf_small: "c < 2 ^ 53 \<Longrightarrow> shiftOf c = 0"
  by (subst shiftOf.simps) simp

lemma shiftOf_big: "\<not> c < 2 ^ 53 \<Longrightarrow> shiftOf c = Suc (shiftOf (c div 2))"
  by (subst shiftOf.simps) simp

lemma shiftOf_lower: "2 ^ 53 \<le> c \<Longrightarrow> 2 ^ 52 \<le> c div 2 ^ shiftOf c"
proof (induction c rule: shiftOf.induct)
  case (1 c)
  have big: "\<not> c < 2 ^ 53" using "1.prems" by simp
  have split: "c div 2 ^ shiftOf c = (c div 2) div 2 ^ shiftOf (c div 2)"
    by (simp add: shiftOf_big [OF big] div_mult2_eq)
  show ?case
  proof (cases "c div 2 < 2 ^ 53")
    case True
    have "(2::nat) ^ 52 \<le> c div 2" using "1.prems" by simp
    then show ?thesis unfolding split by (simp add: shiftOf_small [OF True])
  next
    case False
    then have "2 ^ 52 \<le> (c div 2) div 2 ^ shiftOf (c div 2)"
      using "1.IH" big by simp
    then show ?thesis unfolding split .
  qed
qed

lemma toDouble_small: "c < 2 ^ 53 \<Longrightarrow> toDouble c = c"
  by (simp add: toDouble_def shiftOf_small)

lemma toDouble_big:
  assumes "2 ^ 53 \<le> c"
  shows "2 ^ 53 \<le> toDouble c"
proof -
  define sh where "sh = shiftOf c"
  define q where "q = c div 2 ^ sh"
  have q: "2 ^ 52 \<le> q" unfolding q_def sh_def by (rule shiftOf_lower [OF assms])
  have "0 < sh" unfolding sh_def using assms by (simp add: shiftOf_big)
  then obtain j where sh: "sh = Suc j" by (cases sh) auto
  have "(2::nat) ^ 52 * 2 \<le> q * 2 ^ sh"
    unfolding sh by (rule mult_le_mono [OF q]) simp
  then have a: "(2::nat) ^ 53 \<le> q * 2 ^ sh" by simp
  have "q * 2 ^ sh \<le> toDouble c"
    unfolding toDouble_def Let_def sh_def [symmetric] q_def [symmetric] by simp
  with a show ?thesis by (rule order_trans)
qed

lemma toDouble_eq_small: "toDouble c = m \<Longrightarrow> m < 2 ^ 53 \<Longrightarrow> c = m"
proof (cases "c < 2 ^ 53")
  case True
  assume "toDouble c = m"
  with True show ?thesis by (simp add: toDouble_small)
next
  case False
  assume "toDouble c = m" "m < 2 ^ 53"
  moreover have "2 ^ 53 \<le> toDouble c" using False by (intro toDouble_big) simp
  ultimately show ?thesis by simp
qed

lemma digits_times10: "0 < s \<Longrightarrow> digits (s * 10) = digits s @ ''0''"
  by (subst digits.simps) (simp add: digit_char_def)

lemma digits_pow10: "0 < s \<Longrightarrow> digits (s * 10 ^ j) = digits s @ replicate j (CHR ''0'')"
proof (induction j)
  case 0
  then show ?case by simp
next
  case (Suc j)
  have "s * 10 ^ Suc j = (s * 10 ^ j) * 10" by simp
  then have "digits (s * 10 ^ Suc j) = digits ((s * 10 ^ j) * 10)"
    by (simp only:)
  also have "\<dots> = digits (s * 10 ^ j) @ ''0''"
    using Suc.prems by (intro digits_times10) simp
  also have "\<dots> = digits s @ replicate (Suc j) (CHR ''0'')"
    using Suc by (simp add: replicate_append_same)
  finally show ?case .
qed

lemma length_digits_le: "m < 10 ^ j \<Longrightarrow> 0 < j \<Longrightarrow> length (digits m) \<le> j"
proof (induction m arbitrary: j rule: digits.induct)
  case (1 n)
  show ?case
  proof (cases "n < 10")
    case True
    then show ?thesis using "1.prems" by (simp add: digits.simps [of n])
  next
    case False
    obtain i where j: "j = Suc i" using "1.prems"(2) by (cases j) auto
    have "i \<noteq> 0" using False "1.prems"(1) unfolding j by (cases i) auto
    moreover have "n div 10 < 10 ^ i"
      using "1.prems"(1) unfolding j by (simp add: less_mult_imp_div_less mult.commute)
    ultimately have "length (digits (n div 10)) \<le> i"
      using "1.IH" [OF False, of i] by simp
    with False show ?thesis unfolding j by (simp add: digits.simps [of n])
  qed
qed

lemma candidates_fits:
  assumes "(n, s) \<in> set (candidates m k)"
  shows "10 ^ (k - 1) \<le> s" and "s < 10 ^ k" and "toDouble (s * 10 ^ (n - k)) = m"
    and "n \<le> Suc (length (digits m))"
proof -
  from assms have f: "fits m k (n, s)" and nb: "(n, s) \<in> set (nearby m k)"
    by (simp_all add: candidates_def)
  from f show "10 ^ (k - 1) \<le> s" and "s < 10 ^ k" and "toDouble (s * 10 ^ (n - k)) = m"
    by (simp_all add: fits_def)
  from nb show "n \<le> Suc (length (digits m))"
    by (auto simp: nearby_def Let_def)
qed

lemma find_SomeD: "find P xs = Some k \<Longrightarrow> P k \<and> k \<in> set xs"
  by (induction xs) (auto split: if_splits)

lemma radixValue_append:
  "radixValue 10 (ds @ replicate j (CHR ''0'')) = radixValue 10 ds * 10 ^ j"
proof (induction j)
  case 0
  then show ?case by simp
next
  case (Suc j)
  have "radixValue 10 (ds @ replicate (Suc j) (CHR ''0''))
      = radixValue 10 ((ds @ replicate j (CHR ''0'')) @ ''0'')"
    by (simp add: replicate_append_same)
  also have "\<dots> = radixValue 10 (ds @ replicate j (CHR ''0'')) * 10"
    unfolding radixValue_snoc by (simp add: digitValue_def)
  finally show ?case using Suc by simp
qed

lemma numberToString_found:
  assumes "m \<noteq> 0" and "find (\<lambda>k. candidates m k \<noteq> []) [1..<Suc (length (digits m))] = Some k"
    and "candidates m k = (n, s) # rest"
  shows "numberToString m =
           (if n \<le> 21 then digits s @ replicate (n - k) (CHR ''0'')
            else if k = 1 then digits s @ ''e+'' @ digits (n - 1)
            else (case digits s of
                    [] \<Rightarrow> ''e+'' @ digits (n - 1)
                  | d # ds \<Rightarrow> d # CHR ''.'' # ds @ ''e+'' @ digits (n - 1)))"
  using assms by (simp add: numberToString_def)

lemma numberToString_fallback:
  assumes "m \<noteq> 0" and "find (\<lambda>k. candidates m k \<noteq> []) [1..<Suc (length (digits m))] = None"
  shows "numberToString m = digits m"
  using assms by (simp add: numberToString_def)

lemma numberToString_zero: "numberToString 0 = ''0''"
  by (simp add: numberToString_def)

lemma digits_zero: "digits 0 = ''0''"
  by (simp add: digits.simps [of 0] digit_char_def)

lemma numberToString_small:
  assumes "m < 2 ^ 53"
  shows "numberToString m = digits m"
proof (cases "m = 0")
  case True
  then show ?thesis by (simp add: numberToString_zero digits_zero)
next
  case False
  show ?thesis
  proof (cases "find (\<lambda>k. candidates m k \<noteq> []) [1..<Suc (length (digits m))]")
    case None
    with False show ?thesis by (rule numberToString_fallback)
  next
    case (Some k)
    then have ne: "candidates m k \<noteq> []" and k: "k \<in> set [1..<Suc (length (digits m))]"
      using find_SomeD [OF Some] by simp_all
    then obtain n s rest where c: "candidates m k = (n, s) # rest"
      by (cases "candidates m k") auto
    then have mem: "(n, s) \<in> set (candidates m k)" by simp
    have s1: "10 ^ (k - 1) \<le> s" and rt: "toDouble (s * 10 ^ (n - k)) = m"
      and nD: "n \<le> Suc (length (digits m))"
      using candidates_fits [OF mem] by simp_all
    have val: "s * 10 ^ (n - k) = m" by (rule toDouble_eq_small [OF rt assms])
    have "(2::nat) ^ 53 < 10 ^ 16" by simp
    then have "m < 10 ^ 16" using assms by linarith
    then have "length (digits m) \<le> 16" by (rule length_digits_le) simp
    then have n21: "n \<le> 21" using nD by linarith
    have "0 < s" using s1 by (cases "s = 0") auto
    then have "digits s @ replicate (n - k) (CHR ''0'') = digits (s * 10 ^ (n - k))"
      by (simp add: digits_pow10)
    then show ?thesis
      unfolding numberToString_found [OF False Some c] val using n21 by simp
  qed
qed

lemma numberToString_cases:
  "CHR ''e'' \<in> set (numberToString m)
   \<or> (set (numberToString m) \<subseteq> set ''0123456789''
       \<and> (toDouble (radixValue 10 (numberToString m)) = m
           \<or> radixValue 10 (numberToString m) = m))"
proof (cases "m = 0")
  case True
  then show ?thesis by (simp add: numberToString_zero radixValue_def digitValue_def)
next
  case False
  show ?thesis
  proof (cases "find (\<lambda>k. candidates m k \<noteq> []) [1..<Suc (length (digits m))]")
    case None
    show ?thesis
      unfolding numberToString_fallback [OF False None]
      using digits_chars [of m] by (simp add: radixValue_digits)
  next
    case (Some k)
    then have ne: "candidates m k \<noteq> []"
      using find_SomeD [OF Some] by simp
    then obtain n s rest where c: "candidates m k = (n, s) # rest"
      by (cases "candidates m k") auto
    then have mem: "(n, s) \<in> set (candidates m k)" by simp
    have rt: "toDouble (s * 10 ^ (n - k)) = m"
      using candidates_fits [OF mem] by simp
    show ?thesis
    proof (cases "n \<le> 21")
      case True
      have r: "numberToString m = digits s @ replicate (n - k) (CHR ''0'')"
        unfolding numberToString_found [OF False Some c] using True by simp
      have "set (digits s @ replicate (n - k) (CHR ''0'')) \<subseteq> set ''0123456789''"
        using digits_chars [of s] by auto
      moreover have "radixValue 10 (digits s @ replicate (n - k) (CHR ''0'')) = s * 10 ^ (n - k)"
        by (simp add: radixValue_append radixValue_digits)
      ultimately show ?thesis unfolding r using rt by simp
    next
      case False
      obtain d ds where ds: "digits s = d # ds"
        using digits_nonempty [of s] by (cases "digits s") auto
      have "CHR ''e'' \<in> set (numberToString m)"
        unfolding numberToString_found [OF \<open>m \<noteq> 0\<close> Some c] using False ds by simp
      then show ?thesis by simp
    qed
  qed
qed

lemma numberToString_chars: "set (numberToString m) \<subseteq> set ''0123456789.e+''"
proof (cases "m = 0")
  case True
  then show ?thesis by (simp add: numberToString_zero)
next
  case False
  have d: "set (digits j) \<subseteq> set ''0123456789.e+''" for j
    by (rule order_trans [OF digits_chars]) auto
  show ?thesis
  proof (cases "find (\<lambda>k. candidates m k \<noteq> []) [1..<Suc (length (digits m))]")
    case None
    show ?thesis unfolding numberToString_fallback [OF False None] by (rule d)
  next
    case (Some k)
    then have ne: "candidates m k \<noteq> []"
      using find_SomeD [OF Some] by simp
    then obtain n s rest where c: "candidates m k = (n, s) # rest"
      by (cases "candidates m k") auto
    obtain x xs where ds: "digits s = x # xs"
      using digits_nonempty [of s] by (cases "digits s") auto
    have xs: "x \<in> set ''0123456789.e+''" "set xs \<subseteq> set ''0123456789.e+''"
      using d [of s] unfolding ds by simp_all
    have z: "set (replicate j (CHR ''0'')) \<subseteq> set ''0123456789.e+''" for j
      by (induction j) simp_all
    show ?thesis
      unfolding numberToString_found [OF False Some c]
      using d [of s] d [of "n - 1"] xs z [of "n - k"] unfolding ds
      by (simp split: if_splits)
  qed
qed

subsection \<open>Decimal numerals\<close>

lemma digit_not_minus: "c \<in> set ''0123456789'' \<Longrightarrow> c \<noteq> CHR ''-''"
  by auto











subsection \<open>What \<open>toString\<close> prints\<close>


lemma toString_tail_chars: "toString v = c # r \<Longrightarrow> set r \<subseteq> set ''0123456789.e+''"
proof (cases "v < 0")
  case True
  assume "toString v = c # r"
  with True have "r = numberToString (nat (- v))" by (simp add: toString_def)
  then show ?thesis using numberToString_chars by simp
next
  case False
  assume "toString v = c # r"
  with False have "c # r = numberToString (nat v)" by (simp add: toString_def)
  then have "set (c # r) \<subseteq> set ''0123456789.e+''" using numberToString_chars by simp
  then show ?thesis by simp
qed

lemma toString_eq_digits:
  assumes "n < 2 ^ 53"
  shows "toString v = digits n \<longleftrightarrow> v = int n"
proof
  assume "v = int n"
  then show "toString v = digits n"
    using assms by (simp add: toString_def numberToString_small)
next
  assume e: "toString v = digits n"
  obtain a l where al: "digits n = a # l"
    using digits_nonempty [of n] by (cases "digits n") auto
  have "a \<in> set ''0123456789''" using digits_chars [of n] unfolding al by simp
  then have am: "a \<noteq> CHR ''-''" by (rule digit_not_minus)
  have nonneg: "\<not> v < 0"
  proof
    assume "v < 0"
    then have "toString v = CHR ''-'' # numberToString (nat (- v))" by (simp add: toString_def)
    with e al am show False by simp
  qed
  then have ts: "numberToString (nat v) = digits n" using e by (simp add: toString_def)
  have "CHR ''e'' \<notin> set (digits n)" using digits_chars [of n] by auto
  then have "toDouble (radixValue 10 (digits n)) = nat v \<or> radixValue 10 (digits n) = nat v"
    using numberToString_cases [of "nat v"] unfolding ts by blast
  then have "nat v = n"
    using assms by (auto simp: radixValue_digits toDouble_small)
  with nonneg show "v = int n" by simp
qed












lemma toString_eq_numeral:
  "n < 2 ^ 53 \<Longrightarrow> digits n = t \<Longrightarrow> toString v = t \<longleftrightarrow> v = int n"
  using toString_eq_digits [of n v] by simp

lemma toString_not_inner_minus: "CHR ''-'' \<in> set r \<Longrightarrow> toString v \<noteq> c # r"
proof
  assume m: "CHR ''-'' \<in> set r" and e: "toString v = c # r"
  from toString_tail_chars [OF e] m have "CHR ''-'' \<in> set ''0123456789.e+''" by blast
  then show False by simp
qed

subsection \<open>The branches of the field matcher\<close>

lemma matchesField_star: "matchesField v ''*''"
  by (simp add: matchesField_def)

lemma matchesField_list:
  "includes_str pattern (CHR '','') \<Longrightarrow>
   matchesField v pattern \<longleftrightarrow> toString v \<in> set (split_str (CHR '','') pattern)"
  by (auto simp: matchesField_def includes_str_def includes_arr_def)

lemma matchesField_range:
  assumes "pattern \<noteq> ''*''" and "\<not> includes_str pattern (CHR '','')"
    and "includes_str pattern (CHR ''-'')"
    and "map Number (split_str (CHR ''-'') pattern) = start # end' # rest"
  shows "matchesField v pattern \<longleftrightarrow>
         num_le start (Fin (of_int v)) \<and> num_le (Fin (of_int v)) end'"
  using assms by (simp add: matchesField_def)

lemma matchesField_exact:
  assumes "pattern \<noteq> ''*''" and "\<not> includes_str pattern (CHR '','')"
    and "\<not> includes_str pattern (CHR ''-'')"
  shows "matchesField v pattern \<longleftrightarrow> num_eq (parseInt pattern) (Fin (of_int v))"
  using assms by (simp add: matchesField_def)

lemma num_gt_le_trans: "num_gt a b \<Longrightarrow> num_le a x \<Longrightarrow> num_le x b \<Longrightarrow> False"
  by (cases a; cases b; cases x) auto

lemmas Number_defs =
  Number_def trim_def trimStart_def isStrWhiteSpaceChar_def strUnsignedDecimalLiteral_def
  allDigits_def isRadixDigit_def digitValue_def radixValue_def scale10_def Let_def

lemmas parseInt_defs =
  parseInt_def trimStart_def isStrWhiteSpaceChar_def isRadixDigit_def digitValue_def
  radixValue_def Let_def

lemma split_9_17: "map Number (split_str (CHR ''-'') ''9-17'') = [Fin 9, Fin 17]"
  by (simp add: Number_defs)




lemma matchesField_9_17: "matchesField v ''9-17'' \<longleftrightarrow> 9 \<le> v \<and> v \<le> 17"
proof -
  have "matchesField v ''9-17'' \<longleftrightarrow> num_le (Fin 9) (Fin (of_int v)) \<and> num_le (Fin (of_int v)) (Fin 17)"
    by (rule matchesField_range [OF _ _ _ split_9_17]) (simp_all add: includes_str_def)
  also have "\<dots> \<longleftrightarrow> 9 \<le> v \<and> v \<le> 17"
    by simp
  finally show ?thesis .
qed

lemma split_1_15_30: "split_str (CHR '','') ''1,15,30'' = [''1'', ''15'', ''30'']"
  by simp

lemma toString_1: "toString v = ''1'' \<longleftrightarrow> v = 1"
  using toString_eq_numeral [of 1 "''1''" v] by (simp add: digits.simps digit_char_def)

lemma toString_15: "toString v = ''15'' \<longleftrightarrow> v = 15"
  using toString_eq_numeral [of 15 "''15''" v] by (simp add: digits.simps digit_char_def)

lemma toString_30: "toString v = ''30'' \<longleftrightarrow> v = 30"
  using toString_eq_numeral [of 30 "''30''" v] by (simp add: digits.simps digit_char_def)

lemma toString_5: "toString v = ''5'' \<longleftrightarrow> v = 5"
  using toString_eq_numeral [of 5 "''5''" v] by (simp add: digits.simps digit_char_def)

lemma toString_1_3: "toString v \<noteq> ''1-3''"
  by (rule toString_not_inner_minus) simp

lemma matchesField_1_15_30: "matchesField v ''1,15,30'' \<longleftrightarrow> v \<in> {1, 15, 30}"
proof -
  have "matchesField v ''1,15,30'' \<longleftrightarrow> toString v \<in> set [''1'', ''15'', ''30'']"
    unfolding split_1_15_30 [symmetric]
    by (rule matchesField_list) (simp add: includes_str_def)
  then show ?thesis
    by (simp add: toString_1 toString_15 toString_30)
qed

subsection \<open>Claims on the field matcher\<close>

text \<open>
  Claim C5. For every integer value, the pattern \<^verbatim>\<open>*\<close> matches; the list
  \<^verbatim>\<open>1,15,30\<close> matches exactly the values 1, 15 and 30; the range \<^verbatim>\<open>9-17\<close> matches
  exactly the values from 9 to 17, both included. A pattern that reaches the range
  branch matches a value exactly when \<open>start \<le> value \<le> end\<close>, and when its start
  exceeds its end it matches no value: the call returns false.
\<close>

theorem matchesField_any_list_range:
  "matchesField v ''*''
   \<and> (matchesField v ''1,15,30'' \<longleftrightarrow> v \<in> {1, 15, 30})
   \<and> (matchesField v ''9-17'' \<longleftrightarrow> 9 \<le> v \<and> v \<le> 17)
   \<and> (pattern \<noteq> ''*'' \<and> \<not> includes_str pattern (CHR '','') \<and> includes_str pattern (CHR ''-'')
         \<and> map Number (split_str (CHR ''-'') pattern) = start # end' # rest
       \<longrightarrow> (matchesField w pattern \<longleftrightarrow>
              num_le start (Fin (of_int w)) \<and> num_le (Fin (of_int w)) end')
           \<and> (num_gt start end' \<longrightarrow> \<not> matchesField w pattern))"
proof -
  have r: "pattern \<noteq> ''*'' \<and> \<not> includes_str pattern (CHR '','') \<and> includes_str pattern (CHR ''-'')
         \<and> map Number (split_str (CHR ''-'') pattern) = start # end' # rest
       \<longrightarrow> (matchesField w pattern \<longleftrightarrow>
              num_le start (Fin (of_int w)) \<and> num_le (Fin (of_int w)) end')
           \<and> (num_gt start end' \<longrightarrow> \<not> matchesField w pattern)"
  proof (intro impI, elim conjE)
    assume h: "pattern \<noteq> ''*''" "\<not> includes_str pattern (CHR '','')"
      "includes_str pattern (CHR ''-'')"
      "map Number (split_str (CHR ''-'') pattern) = start # end' # rest"
    have m: "matchesField w pattern \<longleftrightarrow>
             num_le start (Fin (of_int w)) \<and> num_le (Fin (of_int w)) end'"
      by (rule matchesField_range [OF h])
    have "\<not> matchesField w pattern" if "num_gt start end'"
      unfolding m using num_gt_le_trans [OF that] by blast
    with m show "(matchesField w pattern \<longleftrightarrow>
              num_le start (Fin (of_int w)) \<and> num_le (Fin (of_int w)) end')
           \<and> (num_gt start end' \<longrightarrow> \<not> matchesField w pattern)"
      by simp
  qed
  show ?thesis
    by (intro conjI matchesField_star matchesField_1_15_30 matchesField_9_17 r)
qed

text \<open>The pattern \<^verbatim>\<open>17-9\<close>, whose start exceeds its end, at the value 10.\<close>

theorem matchesField_any_list_range_witness:
  "''17-9'' \<noteq> ''*'' \<and> \<not> includes_str ''17-9'' (CHR '','') \<and> includes_str ''17-9'' (CHR ''-'')
   \<and> map Number (split_str (CHR ''-'') ''17-9'') = [Fin 17, Fin 9]
   \<and> num_gt (Fin 17) (Fin 9)
   \<and> \<not> matchesField 10 ''17-9''
   \<and> matchesField 10 ''*'' \<and> \<not> matchesField 10 ''1,15,30'' \<and> matchesField 10 ''9-17''"
proof -
  have h: "''17-9'' \<noteq> ''*'' \<and> \<not> includes_str ''17-9'' (CHR '','')
           \<and> includes_str ''17-9'' (CHR ''-'')
           \<and> map Number (split_str (CHR ''-'') ''17-9'') = [Fin 17, Fin 9]"
    by (simp add: includes_str_def Number_defs)
  have g: "num_gt (Fin 17) (Fin 9)" by simp
  show ?thesis
    using h g
      matchesField_any_list_range [where v = 10 and w = 10 and pattern = "''17-9''"
        and start = "Fin 17" and end' = "Fin 9" and rest = "[]"]
    by simp
qed

text \<open>
  Claim C8. The token \<^verbatim>\<open>1-3,5\<close>, which holds a comma and a dash, is taken by the list
  branch and cut at the comma into \<^verbatim>\<open>1-3\<close> and \<^verbatim>\<open>5\<close>. No integer prints as \<^verbatim>\<open>1-3\<close>, so
  that piece matches nothing, and the pattern matches exactly the value 5.
\<close>

theorem matchesField_list_before_range:
  "split_str (CHR '','') ''1-3,5'' = [''1-3'', ''5'']
   \<and> (matchesField v ''1-3,5'' \<longleftrightarrow> includes_arr [''1-3'', ''5''] (toString v))
   \<and> toString v \<noteq> ''1-3''
   \<and> (matchesField v ''1-3,5'' \<longleftrightarrow> v = 5)"
proof -
  have s: "split_str (CHR '','') ''1-3,5'' = [''1-3'', ''5'']" by simp
  have m: "matchesField v ''1-3,5'' \<longleftrightarrow> toString v \<in> set [''1-3'', ''5'']"
    unfolding s [symmetric] by (rule matchesField_list) (simp add: includes_str_def)
  then have "matchesField v ''1-3,5'' \<longleftrightarrow> v = 5"
    by (simp add: toString_1_3 toString_5)
  with s m show ?thesis
    by (simp add: includes_arr_def toString_1_3)
qed

text \<open>The values 5, 1, 2 and 3 against \<^verbatim>\<open>1-3,5\<close>.\<close>

theorem matchesField_list_before_range_witness:
  "matchesField 5 ''1-3,5'' \<and> \<not> matchesField 1 ''1-3,5'' \<and> \<not> matchesField 2 ''1-3,5''
   \<and> \<not> matchesField 3 ''1-3,5''"
proof -
  have "matchesField v ''1-3,5'' \<longleftrightarrow> v = 5" for v
    using matchesField_list_before_range [of v] by (elim conjE)
  then show ?thesis by simp
qed




text \<open>
  Claim C9, as stated: a token that is not \<^verbatim>\<open>*\<close>, holds no comma and no dash and is
  not the decimal representation of an integer matches no value. It fails at the token
  \<^verbatim>\<open>5abc\<close>: \<^verbatim>\<open>parseInt\<close> reads the leading 5 and ignores the rest, so the value 5
  matches.
\<close>

theorem matchesField_exact_prefix_counterexample:
  "''5abc'' \<noteq> ''*'' \<and> \<not> includes_str ''5abc'' (CHR '','') \<and> \<not> includes_str ''5abc'' (CHR ''-'')
   \<and> \<not> isDecimalInteger ''5abc'' \<and> matchesField 5 ''5abc''"
  by (simp add: includes_str_def isDecimalInteger_def allDigits_def isRadixDigit_def
      digitValue_def matchesField_def num_eq_def parseInt_defs)

text \<open>
  Claim C9, amended. For every token that is not \<^verbatim>\<open>*\<close> and holds no comma and no
  dash, the pattern matches a value exactly when \<^verbatim>\<open>parseInt\<close> of the token is that
  value. In particular a token in which \<^verbatim>\<open>parseInt\<close> finds no digit after the leading
  white space, the sign and the \<^verbatim>\<open>0x\<close> prefix (it returns NaN) matches no value.
\<close>

theorem matchesField_exact_fail_closed:
  "pattern \<noteq> ''*'' \<Longrightarrow> \<not> includes_str pattern (CHR '','') \<Longrightarrow>
   \<not> includes_str pattern (CHR ''-'') \<Longrightarrow>
     (parseInt pattern = NaN \<longrightarrow> \<not> matchesField v pattern)
   \<and> (matchesField v pattern \<longleftrightarrow> parseInt pattern = Fin (of_int v))"
  using matchesField_exact [of pattern v] by (auto simp: num_eq_def)

text \<open>The token \<^verbatim>\<open>abc\<close> at the value 5.\<close>

theorem matchesField_exact_fail_closed_witness:
  "''abc'' \<noteq> ''*'' \<and> \<not> includes_str ''abc'' (CHR '','') \<and> \<not> includes_str ''abc'' (CHR ''-'')
   \<and> parseInt ''abc'' = NaN \<and> \<not> matchesField 5 ''abc''"
proof -
  have h1: "''abc'' \<noteq> ''*''" by simp
  have h2: "\<not> includes_str ''abc'' (CHR '','')" by (simp add: includes_str_def)
  have h3: "\<not> includes_str ''abc'' (CHR ''-'')" by (simp add: includes_str_def)
  have h4: "parseInt ''abc'' = NaN" by (simp add: parseInt_defs)
  show ?thesis
    using h1 h2 h3 h4 matchesField_exact_fail_closed [OF h1 h2 h3, of 5] by simp
qed

subsection \<open>Ranges of the calendar components\<close>

lemma getMinutes_range: "0 \<le> getMinutes dt \<and> getMinutes dt \<le> 59"
  by (simp add: getMinutes_def MinFromTime_def)

lemma getHours_range: "0 \<le> getHours dt \<and> getHours dt \<le> 23"
  by (simp add: getHours_def HourFromTime_def)

lemma getDay_range: "0 \<le> getDay dt \<and> getDay dt \<le> 6"
  by (simp add: getDay_def WeekDay_def)

lemma getMonth_range: "0 \<le> getMonth dt \<and> getMonth dt \<le> 11"
  by (simp add: getMonth_def MonthFromTime_def Let_def)

lemma div_next:
  fixes x n :: int
  assumes "0 < n"
  shows "(x + 1) div n = x div n + (if (x + 1) mod n = 0 then 1 else 0)"
proof (cases "x mod n + 1 < n")
  case True
  have "x + 1 = n * (x div n) + (x mod n + 1)" by simp
  moreover have "0 \<le> x mod n + 1" using assms by (simp add: add_nonneg_nonneg)
  ultimately have "(x + 1) div n = x div n" "(x + 1) mod n = x mod n + 1"
    using True int_div_pos_eq [of "x + 1" n "x div n" "x mod n + 1"]
      int_mod_pos_eq [of "x + 1" n "x div n" "x mod n + 1"] by simp_all
  moreover have "x mod n + 1 \<noteq> 0" using assms pos_mod_sign [of n x] by linarith
  ultimately show ?thesis by simp
next
  case False
  then have r: "x mod n + 1 = n" using assms pos_mod_bound [of n x] by linarith
  have "x + 1 = n * (x div n) + (x mod n + 1)" by simp
  then have e: "x + 1 = n * (x div n + 1) + 0" unfolding r by (simp add: algebra_simps)
  have "(x + 1) div n = x div n + 1" "(x + 1) mod n = 0"
    using assms int_div_pos_eq [OF e] int_mod_pos_eq [OF e] by simp_all
  then show ?thesis by simp
qed

lemma mod_shift: "(y - n * k) mod n = y mod (n::int)"
  using mod_mult_self2 [of y n "- k"] by simp

lemma DayFromYear_next: "DayFromYear (y + 1) = DayFromYear y + DaysInYear y"
proof -
  have a: "(y + 1 - 1969) div 4 = (y - 1969) div 4 + (if y mod 4 = 0 then 1 else 0)"
    using div_next [of 4 "y - 1969"] mod_shift [of y 4 492] by simp
  have b: "(y + 1 - 1901) div 100 = (y - 1901) div 100 + (if y mod 100 = 0 then 1 else 0)"
    using div_next [of 100 "y - 1901"] mod_shift [of y 100 19] by simp
  have c: "(y + 1 - 1601) div 400 = (y - 1601) div 400 + (if y mod 400 = 0 then 1 else 0)"
    using div_next [of 400 "y - 1601"] mod_shift [of y 400 4] by simp
  have d1: "y mod 100 = 0" if "y mod 400 = 0"
  proof -
    have "(400::int) dvd y" using that by (simp add: mod_eq_0_iff_dvd)
    moreover have "(100::int) dvd 400" by simp
    ultimately have "(100::int) dvd y" by (rule dvd_trans [rotated])
    then show ?thesis by (simp add: mod_eq_0_iff_dvd)
  qed
  have d2: "y mod 4 = 0" if "y mod 100 = 0"
  proof -
    have "(100::int) dvd y" using that by (simp add: mod_eq_0_iff_dvd)
    moreover have "(4::int) dvd 100" by simp
    ultimately have "(4::int) dvd y" by (rule dvd_trans [rotated])
    then show ?thesis by (simp add: mod_eq_0_iff_dvd)
  qed
  show ?thesis
    unfolding DayFromYear_def DaysInYear_def a b c using d1 d2 by (auto simp: algebra_simps)
qed

lemma DayWithinYear_range:
  "0 \<le> DayWithinYear t \<and> DayWithinYear t < 365 + InLeapYear t"
proof -
  have "DaysInYear y = 365 \<or> DaysInYear y = 366" for y
    by (simp add: DaysInYear_def)
  then have "DaysInYear (YearFromTime t) = 365 + InLeapYear t"
    by (auto simp: InLeapYear_def)
  then show ?thesis
    using YearFromTime_spec [of t] DayFromYear_next [of "YearFromTime t"]
    unfolding DayWithinYear_def by linarith
qed

lemma InLeapYear_range: "InLeapYear t = 0 \<or> InLeapYear t = 1"
  by (simp add: InLeapYear_def)

lemma DateFromTime_range: "1 \<le> DateFromTime t \<and> DateFromTime t \<le> 31"
proof -
  define d where "d = DayWithinYear t"
  define l where "l = InLeapYear t"
  have r: "0 \<le> d" "d < 365 + l" "l = 0 \<or> l = 1"
    unfolding d_def l_def using DayWithinYear_range [of t] InLeapYear_range [of t] by simp_all
  show ?thesis
    unfolding DateFromTime_def MonthFromTime_def Let_def d_def [symmetric] l_def [symmetric]
    using r by (simp split: if_splits) linarith
qed

lemma getDate_range: "1 \<le> getDate dt \<and> getDate dt \<le> 31"
  unfolding getDate_def by (rule DateFromTime_range)

subsection \<open>The scenario, step by step\<close>

lemmas Date_defs =
  getTime_def getMinutes_def getHours_def getDate_def getMonth_def getDay_def LocalTime_def
  MinFromTime_def HourFromTime_def WeekDay_def DateFromTime_def MonthFromTime_def
  DayWithinYear_def InLeapYear_def YearFromTime_def DaysInYear_def DayFromYear_def Day_def
  msPerMinute_def msPerHour_def msPerDay_def Let_def

lemma monday_0900_parts:
  "getMinutes monday_0900 = 0 \<and> getHours monday_0900 = 9 \<and> getDate monday_0900 = 1
   \<and> getMonth monday_0900 + 1 = 1 \<and> getDay monday_0900 = 1"
  by (simp add: monday_0900_def Date_defs)

lemma monday_090030_parts:
  "getMinutes monday_090030 = 0 \<and> getHours monday_090030 = 9 \<and> getDate monday_090030 = 1
   \<and> getMonth monday_090030 + 1 = 1 \<and> getDay monday_090030 = 1"
  by (simp add: monday_090030_def Date_defs)

lemma monday_090105_parts:
  "getMinutes monday_090105 = 1 \<and> getHours monday_090105 = 9 \<and> getDate monday_090105 = 1
   \<and> getMonth monday_090105 + 1 = 1 \<and> getDay monday_090105 = 1"
  by (simp add: monday_090105_def Date_defs)

lemma next_monday_0900_parts:
  "getMinutes next_monday_0900 = 0 \<and> getHours next_monday_0900 = 9
   \<and> getDate next_monday_0900 = 8 \<and> getMonth next_monday_0900 + 1 = 1
   \<and> getDay next_monday_0900 = 1"
  by (simp add: next_monday_0900_def Date_defs)

lemma matchesField_0: "matchesField v ''0'' \<longleftrightarrow> v = 0"
  by (simp add: matchesField_def includes_str_def num_eq_def parseInt_defs)

lemma matchesField_1: "matchesField v ''1'' \<longleftrightarrow> v = 1"
  by (simp add: matchesField_def includes_str_def num_eq_def parseInt_defs)

lemma matchesField_9: "matchesField v ''9'' \<longleftrightarrow> v = 9"
  by (simp add: matchesField_def includes_str_def num_eq_def parseInt_defs)

lemma matchesSchedule_iff:
  "matchesSchedule this dt \<longleftrightarrow>
     matchesField (getMinutes dt) (minute this) \<and> matchesField (getHours dt) (hour this)
     \<and> matchesField (getDate dt) (day this) \<and> matchesField (getMonth dt + 1) (month this)
     \<and> matchesField (getDay dt) (weekday this)"
  by (simp add: matchesSchedule_def)

lemma weekly_job_matches:
  "matchesSchedule (weekly_job\<lparr>lastRun := r\<rparr>) dt \<longleftrightarrow>
     getMinutes dt = 0 \<and> getHours dt = 9 \<and> getDay dt = 1"
  by (simp add: matchesSchedule_iff weekly_job_def matchesField_0 matchesField_9
      matchesField_1 matchesField_star)

lemma shouldRun_true:
  assumes "fst (shouldRun now this)"
  shows "snd (shouldRun now this) = this\<lparr>lastRun := Some now\<rparr>"
    and "matchesSchedule this now"
    and "lastRun this = Some prev \<Longrightarrow> getTime prev + 60000 < getTime now"
  using assms by (auto simp: shouldRun_def split: if_splits option.splits)

lemma shouldRun_false:
  assumes "\<not> fst (shouldRun now this)"
  shows "snd (shouldRun now this) = this"
  using assms by (auto simp: shouldRun_def split: if_splits option.splits)

lemma weekly_job_lastRun: "lastRun weekly_job = None"
  by (simp add: weekly_job_def)

lemma weekly_job_matches_initial:
  "matchesSchedule weekly_job dt \<longleftrightarrow> getMinutes dt = 0 \<and> getHours dt = 9 \<and> getDay dt = 1"
  using weekly_job_matches [of "lastRun weekly_job" dt] by simp

lemma scenario_times:
  "getTime monday_090030 - getTime monday_0900 = 30000"
  "getTime monday_090105 - getTime monday_0900 = 65000"
  "getTime next_monday_0900 - getTime monday_0900 = 604800000"
  by (simp_all add: getTime_def monday_0900_def monday_090030_def monday_090105_def
      next_monday_0900_def)

lemma scenario_first:
  "shouldRun monday_0900 weekly_job = (True, weekly_job\<lparr>lastRun := Some monday_0900\<rparr>)"
  using monday_0900_parts
  by (simp add: shouldRun_def weekly_job_lastRun weekly_job_matches_initial)

lemma scenario_inside_window:
  "shouldRun monday_090030 (weekly_job\<lparr>lastRun := Some monday_0900\<rparr>)
     = (False, weekly_job\<lparr>lastRun := Some monday_0900\<rparr>)"
  by (simp add: shouldRun_def scenario_times)

lemma scenario_minute_passed:
  "shouldRun monday_090105 (weekly_job\<lparr>lastRun := Some monday_0900\<rparr>)
     = (False, weekly_job\<lparr>lastRun := Some monday_0900\<rparr>)"
  using monday_090105_parts
  by (simp add: shouldRun_def scenario_times weekly_job_matches)

lemma scenario_next_week:
  "shouldRun next_monday_0900 (weekly_job\<lparr>lastRun := Some monday_0900\<rparr>)
     = (True, weekly_job\<lparr>lastRun := Some next_monday_0900\<rparr>)"
  using next_monday_0900_parts
  by (simp add: shouldRun_def scenario_times weekly_job_matches)

subsection \<open>Claims on the schedule and on \<open>shouldRun\<close>\<close>

text \<open>
  Claim C4. For every Date, the schedule matches exactly when all five fields match:
  the minute field against the minute, the hour field against the hour, the day field
  against the day of the month, the month field against the month of the runtime plus
  one, and the weekday field against the day of the week of the local-time accessor.
  The month of the runtime counts from 0, so that the compared month lies between 1 and
  12; the day of the week lies between 0 and 6.
\<close>

theorem matchesSchedule_five_fields:
  "(matchesSchedule this dt \<longleftrightarrow>
      matchesField (getMinutes dt) (minute this) \<and> matchesField (getHours dt) (hour this)
      \<and> matchesField (getDate dt) (day this) \<and> matchesField (getMonth dt + 1) (month this)
      \<and> matchesField (getDay dt) (weekday this))
   \<and> 0 \<le> getMinutes dt \<and> getMinutes dt \<le> 59
   \<and> 0 \<le> getHours dt \<and> getHours dt \<le> 23
   \<and> 1 \<le> getDate dt \<and> getDate dt \<le> 31
   \<and> getMonth dt = MonthFromTime (LocalTime dt) \<and> 1 \<le> getMonth dt + 1 \<and> getMonth dt + 1 \<le> 12
   \<and> getDay dt = WeekDay (LocalTime dt) \<and> 0 \<le> getDay dt \<and> getDay dt \<le> 6"
  using matchesSchedule_iff [of this dt] getMinutes_range [of dt] getHours_range [of dt]
    getDate_range [of dt] getMonth_range [of dt] getDay_range [of dt]
  by (simp add: getMonth_def getDay_def)

text \<open>The weekly job on Monday at 09:00:00 and at 09:01:05.\<close>

theorem matchesSchedule_five_fields_witness:
  "matchesSchedule weekly_job monday_0900 \<and> \<not> matchesSchedule weekly_job monday_090105
   \<and> getMinutes monday_0900 = 0 \<and> getHours monday_0900 = 9 \<and> getDate monday_0900 = 1
   \<and> getMonth monday_0900 + 1 = 1 \<and> getDay monday_0900 = 1"
proof -
  have "matchesSchedule weekly_job dt \<longleftrightarrow> getMinutes dt = 0 \<and> getHours dt = 9 \<and> getDay dt = 1"
    for dt
    using matchesSchedule_five_fields [of weekly_job dt]
    by (simp add: weekly_job_def matchesField_0 matchesField_9 matchesField_1 matchesField_star)
  then show ?thesis
    using monday_0900_parts monday_090105_parts by simp
qed

text \<open>
  Claim C1. When the job is armed at \<open>t\<close> (it has not run yet, or its last run lies
  more than 60000 milliseconds before \<open>t\<close>) and each of the five fields matches its
  calendar component of \<open>t\<close>, the call at \<open>t\<close> returns true and leaves \<open>lastRun\<close> set
  to \<open>t\<close>. After that, a call at a matching \<open>t3\<close> more than 60000 milliseconds later
  returns true again and sets \<open>lastRun\<close> to \<open>t3\<close>.
\<close>

theorem shouldRun_fires:
  "(lastRun this = None \<or> (\<exists>prev. lastRun this = Some prev \<and> getTime t - getTime prev > 60000)) \<Longrightarrow>
   matchesField (getMinutes t) (minute this) \<Longrightarrow>
   matchesField (getHours t) (hour this) \<Longrightarrow>
   matchesField (getDate t) (day this) \<Longrightarrow>
   matchesField (getMonth t + 1) (month this) \<Longrightarrow>
   matchesField (getDay t) (weekday this) \<Longrightarrow>
     shouldRun t this = (True, this\<lparr>lastRun := Some t\<rparr>)
   \<and> lastRun (snd (shouldRun t this)) = Some t
   \<and> (getTime t3 - getTime t > 60000
        \<and> matchesField (getMinutes t3) (minute this) \<and> matchesField (getHours t3) (hour this)
        \<and> matchesField (getDate t3) (day this) \<and> matchesField (getMonth t3 + 1) (month this)
        \<and> matchesField (getDay t3) (weekday this)
      \<longrightarrow> shouldRun t3 (snd (shouldRun t this)) = (True, this\<lparr>lastRun := Some t3\<rparr>))"
  by (auto simp: shouldRun_def matchesSchedule_iff split: option.splits)

text \<open>The weekly job, first on Monday at 09:00:00, then a week later.\<close>

theorem shouldRun_fires_witness:
  "lastRun weekly_job = None
   \<and> matchesField (getMinutes monday_0900) (minute weekly_job)
   \<and> matchesField (getHours monday_0900) (hour weekly_job)
   \<and> matchesField (getDate monday_0900) (day weekly_job)
   \<and> matchesField (getMonth monday_0900 + 1) (month weekly_job)
   \<and> matchesField (getDay monday_0900) (weekday weekly_job)
   \<and> shouldRun monday_0900 weekly_job = (True, weekly_job\<lparr>lastRun := Some monday_0900\<rparr>)
   \<and> getTime next_monday_0900 - getTime monday_0900 > 60000
   \<and> matchesField (getMinutes next_monday_0900) (minute weekly_job)
   \<and> matchesField (getHours next_monday_0900) (hour weekly_job)
   \<and> matchesField (getDate next_monday_0900) (day weekly_job)
   \<and> matchesField (getMonth next_monday_0900 + 1) (month weekly_job)
   \<and> matchesField (getDay next_monday_0900) (weekday weekly_job)
   \<and> shouldRun next_monday_0900 (snd (shouldRun monday_0900 weekly_job))
       = (True, weekly_job\<lparr>lastRun := Some next_monday_0900\<rparr>)"
proof -
  have a: "lastRun weekly_job = None \<or>
           (\<exists>prev. lastRun weekly_job = Some prev \<and> getTime monday_0900 - getTime prev > 60000)"
    by (simp add: weekly_job_def)
  have m: "matchesField (getMinutes monday_0900) (minute weekly_job)"
    "matchesField (getHours monday_0900) (hour weekly_job)"
    "matchesField (getDate monday_0900) (day weekly_job)"
    "matchesField (getMonth monday_0900 + 1) (month weekly_job)"
    "matchesField (getDay monday_0900) (weekday weekly_job)"
    using monday_0900_parts
    by (simp_all add: weekly_job_def matchesField_0 matchesField_9 matchesField_1 matchesField_star)
  have n: "getTime next_monday_0900 - getTime monday_0900 > 60000"
    "matchesField (getMinutes next_monday_0900) (minute weekly_job)"
    "matchesField (getHours next_monday_0900) (hour weekly_job)"
    "matchesField (getDate next_monday_0900) (day weekly_job)"
    "matchesField (getMonth next_monday_0900 + 1) (month weekly_job)"
    "matchesField (getDay next_monday_0900) (weekday weekly_job)"
    using next_monday_0900_parts
    by (simp_all add: weekly_job_def matchesField_0 matchesField_9 matchesField_1
        matchesField_star getTime_def next_monday_0900_def monday_0900_def)
  have l: "lastRun weekly_job = None" by (rule weekly_job_lastRun)
  note c = shouldRun_fires [OF a m, of next_monday_0900]
  have c1: "shouldRun monday_0900 weekly_job = (True, weekly_job\<lparr>lastRun := Some monday_0900\<rparr>)"
    using c by (elim conjE)
  have c3: "shouldRun next_monday_0900 (snd (shouldRun monday_0900 weekly_job))
       = (True, weekly_job\<lparr>lastRun := Some next_monday_0900\<rparr>)"
    using c n by blast
  show ?thesis
    by (intro conjI l m n c1 c3)
qed

text \<open>
  Claim C2. When the job has run at \<open>prev\<close> and \<open>t2\<close> lies after it by at most 60000
  milliseconds, the call at \<open>t2\<close> returns false, whatever the schedule says of \<open>t2\<close>:
  the test on the last run comes before any field is looked at.
\<close>

theorem shouldRun_dedup:
  "lastRun this = Some prev \<Longrightarrow> 0 < getTime t2 - getTime prev \<Longrightarrow>
   getTime t2 - getTime prev \<le> 60000 \<Longrightarrow> shouldRun t2 this = (False, this)"
  by (simp add: shouldRun_def)

text \<open>Thirty seconds after the run of Monday 09:00:00, where the schedule still matches.\<close>

theorem shouldRun_dedup_witness:
  "lastRun (weekly_job\<lparr>lastRun := Some monday_0900\<rparr>) = Some monday_0900
   \<and> 0 < getTime monday_090030 - getTime monday_0900
   \<and> getTime monday_090030 - getTime monday_0900 \<le> 60000
   \<and> matchesSchedule (weekly_job\<lparr>lastRun := Some monday_0900\<rparr>) monday_090030
   \<and> shouldRun monday_090030 (weekly_job\<lparr>lastRun := Some monday_0900\<rparr>)
       = (False, weekly_job\<lparr>lastRun := Some monday_0900\<rparr>)"
proof -
  have a: "lastRun (weekly_job\<lparr>lastRun := Some monday_0900\<rparr>) = Some monday_0900" by simp
  have b: "0 < getTime monday_090030 - getTime monday_0900"
    by (simp add: getTime_def monday_090030_def monday_0900_def)
  have c: "getTime monday_090030 - getTime monday_0900 \<le> 60000"
    by (simp add: getTime_def monday_090030_def monday_0900_def)
  have d: "matchesSchedule (weekly_job\<lparr>lastRun := Some monday_0900\<rparr>) monday_090030"
    using monday_090030_parts by (simp add: weekly_job_matches)
  show ?thesis
    using a b c d shouldRun_dedup [OF a b c] by simp
qed

text \<open>
  Claim C7. A call that returns false leaves the object as it was: \<open>lastRun\<close> keeps its
  value and the five fields are the same, whether the last run was too recent or a
  field did not match.
\<close>

theorem shouldRun_false_unchanged:
  "fst (shouldRun now this) = False \<Longrightarrow>
     snd (shouldRun now this) = this
   \<and> lastRun (snd (shouldRun now this)) = lastRun this
   \<and> minute (snd (shouldRun now this)) = minute this
   \<and> hour (snd (shouldRun now this)) = hour this
   \<and> day (snd (shouldRun now this)) = day this
   \<and> month (snd (shouldRun now this)) = month this
   \<and> weekday (snd (shouldRun now this)) = weekday this"
  using shouldRun_false [of now this] by simp

text \<open>
  The two ways of returning false: inside the window, and outside of it at 09:01:05,
  where the minute field does not match.
\<close>

theorem shouldRun_false_unchanged_witness:
  "fst (shouldRun monday_090030 (weekly_job\<lparr>lastRun := Some monday_0900\<rparr>)) = False
   \<and> snd (shouldRun monday_090030 (weekly_job\<lparr>lastRun := Some monday_0900\<rparr>))
       = weekly_job\<lparr>lastRun := Some monday_0900\<rparr>
   \<and> fst (shouldRun monday_090105 weekly_job) = False
   \<and> snd (shouldRun monday_090105 weekly_job) = weekly_job"
proof -
  have a: "fst (shouldRun monday_090030 (weekly_job\<lparr>lastRun := Some monday_0900\<rparr>)) = False"
    by (simp add: shouldRun_def getTime_def monday_090030_def monday_0900_def)
  have "\<not> matchesSchedule weekly_job monday_090105"
    using weekly_job_matches [of "lastRun weekly_job" monday_090105] monday_090105_parts
    by simp
  then have b: "fst (shouldRun monday_090105 weekly_job) = False"
    by (simp add: shouldRun_def)
  show ?thesis
    using a b shouldRun_false_unchanged [OF a] shouldRun_false_unchanged [OF b] by simp
qed

lemma firings_after:
  "lastRun this = Some prev \<Longrightarrow> f \<in> set (firings this ts) \<Longrightarrow> getTime prev < getTime f"
proof (induction ts arbitrary: this prev)
  case Nil
  then show ?case by simp
next
  case (Cons now rest)
  show ?case
  proof (cases "fst (shouldRun now this)")
    case True
    have st: "lastRun (snd (shouldRun now this)) = Some now"
      using shouldRun_true(1) [OF True] by simp
    have lt: "getTime prev < getTime now"
      using shouldRun_true(3) [OF True Cons.prems(1)] by simp
    from Cons.prems(2) True have "f = now \<or> f \<in> set (firings (snd (shouldRun now this)) rest)"
      by simp
    then show ?thesis
    proof
      assume "f = now"
      with lt show ?thesis by simp
    next
      assume "f \<in> set (firings (snd (shouldRun now this)) rest)"
      then have "getTime now < getTime f" using Cons.IH [OF st] by simp
      with lt show ?thesis by simp
    qed
  next
    case False
    then have "snd (shouldRun now this) = this" by (rule shouldRun_false)
    with False Cons.prems Cons.IH show ?thesis by simp
  qed
qed

lemma firings_sorted: "sorted_wrt (\<lambda>a b. getTime a < getTime b) (firings this ts)"
proof (induction ts arbitrary: this)
  case Nil
  then show ?case by simp
next
  case (Cons now rest)
  show ?case
  proof (cases "fst (shouldRun now this)")
    case True
    have st: "lastRun (snd (shouldRun now this)) = Some now"
      using shouldRun_true(1) [OF True] by simp
    show ?thesis
      using True Cons.IH firings_after [OF st] by simp
  next
    case False
    then show ?thesis using Cons.IH by simp
  qed
qed

lemma final_lastRun:
  "lastRun (final this ts) =
     (if firings this ts = [] then lastRun this else Some (last (firings this ts)))"
proof (induction ts arbitrary: this)
  case Nil
  then show ?case by simp
next
  case (Cons now rest)
  show ?case
  proof (cases "fst (shouldRun now this)")
    case True
    have st: "lastRun (snd (shouldRun now this)) = Some now"
      using shouldRun_true(1) [OF True] by simp
    show ?thesis
      using True st Cons.IH [of "snd (shouldRun now this)"] by simp
  next
    case False
    then have "snd (shouldRun now this) = this" by (rule shouldRun_false)
    with False Cons.IH [of this] show ?thesis by simp
  qed
qed

text \<open>
  Claim C6. Over any sequence of calls on one job, the Dates at which a call returned
  true have strictly increasing time values, all of them above the time value
  \<open>lastRun\<close> had before the sequence; after the sequence \<open>lastRun\<close> is the last of
  them, or what it was when no call returned true. A single call changes \<open>lastRun\<close>
  only when it returns true, and then to the Date of the call.
\<close>

theorem lastRun_strictly_increasing:
  "sorted_wrt (\<lambda>a b. getTime a < getTime b) (firings this ts)
   \<and> (\<forall>prev. lastRun this = Some prev \<longrightarrow>
         (\<forall>f \<in> set (firings this ts). getTime prev < getTime f))
   \<and> lastRun (final this ts) =
       (if firings this ts = [] then lastRun this else Some (last (firings this ts)))
   \<and> (lastRun (snd (shouldRun now this)) \<noteq> lastRun this \<longrightarrow>
         fst (shouldRun now this) \<and> lastRun (snd (shouldRun now this)) = Some now)"
proof -
  have "fst (shouldRun now this) \<and> lastRun (snd (shouldRun now this)) = Some now"
    if "lastRun (snd (shouldRun now this)) \<noteq> lastRun this"
  proof (cases "fst (shouldRun now this)")
    case True
    then show ?thesis using shouldRun_true(1) [OF True] by simp
  next
    case False
    then show ?thesis using shouldRun_false [OF False] that by simp
  qed
  then show ?thesis
    using firings_sorted [of this ts] firings_after [of this _ _ ts] final_lastRun [of this ts]
    by blast
qed

text \<open>The four calls of the scenario: the first and the last return true.\<close>

theorem lastRun_strictly_increasing_witness:
  "firings weekly_job [monday_0900, monday_090030, monday_090105, next_monday_0900]
     = [monday_0900, next_monday_0900]
   \<and> sorted_wrt (\<lambda>a b. getTime a < getTime b)
       (firings weekly_job [monday_0900, monday_090030, monday_090105, next_monday_0900])
   \<and> lastRun (final weekly_job [monday_0900, monday_090030, monday_090105, next_monday_0900])
       = Some next_monday_0900
   \<and> getTime monday_0900 < getTime next_monday_0900"
proof -
  have f: "firings weekly_job [monday_0900, monday_090030, monday_090105, next_monday_0900]
     = [monday_0900, next_monday_0900]"
    by (simp add: scenario_first scenario_inside_window scenario_minute_passed
        scenario_next_week)
  show ?thesis
    using f lastRun_strictly_increasing
      [of weekly_job "[monday_0900, monday_090030, monday_090105, next_monday_0900]" monday_0900]
    by (simp add: weekly_job_lastRun)
qed

subsection \<open>Claims on the constructor\<close>

lemma length_5_nths: "length xs = 5 \<Longrightarrow> xs = [xs ! 0, xs ! 1, xs ! 2, xs ! 3, xs ! 4]"
  by (auto simp: numeral_eq_Suc length_Suc_conv)

lemma split_str_five:
  assumes "sep \<notin> set a" "sep \<notin> set b" "sep \<notin> set c" "sep \<notin> set d" "sep \<notin> set e"
  shows "split_str sep (a @ sep # b @ sep # c @ sep # d @ sep # e) = [a, b, c, d, e]"
  using assms by (simp add: split_str_append split_str_no_sep)

text \<open>
  Claim C3, as stated: an expression with exactly five whitespace-separated tokens is
  accepted and any other is rejected. The constructor cuts at every single space
  instead: \<^verbatim>\<open>0  9 * * 1\<close>, with two spaces after the 0, has five tokens and is
  rejected, because the cut gives six pieces; \<^verbatim>\<open> 0 9 * *\<close>, with a leading space, has
  four tokens and is accepted, with an empty minute field.
\<close>

theorem RoutineJob_new_whitespace_counterexample:
  "length (whitespace_tokens ''0  9 * * 1'') = 5
   \<and> RoutineJob_new ''job'' ''0  9 * * 1'' () = Inl (Error ''Invalid cron expression'')
   \<and> length (whitespace_tokens '' 0 9 * *'') = 4
   \<and> RoutineJob_new ''job'' '' 0 9 * *'' ()
       = Inr \<lparr>name = ''job'', logger = (), lastRun = None,
              minute = '''', hour = ''0'', day = ''9'', month = ''*'', weekday = ''*''\<rparr>"
  by (simp add: whitespace_tokens_def isStrWhiteSpaceChar_def RoutineJob_new_def)

text \<open>
  Claim C3, amended. The constructor succeeds exactly when cutting the expression at
  every space character gives five pieces, empty pieces counted; the pieces become the
  minute, hour, day, month and weekday fields in this order, and \<open>lastRun\<close> is empty.
  Otherwise it fails with the error \<^verbatim>\<open>Invalid cron expression\<close>. It never looks inside
  a piece: any five strings without a space, joined by single spaces, are accepted as
  they are. Nor can a piece make a later match fail: \<open>matchesField\<close> has no failing
  path, it returns a truth value for every value and every string.
\<close>

theorem RoutineJob_new_five_fields:
  "(length (split_str (CHR '' '') expr) = 5 \<longrightarrow>
      RoutineJob_new nm expr lg
        = Inr \<lparr>name = nm, logger = lg, lastRun = None,
               minute = split_str (CHR '' '') expr ! 0, hour = split_str (CHR '' '') expr ! 1,
               day = split_str (CHR '' '') expr ! 2, month = split_str (CHR '' '') expr ! 3,
               weekday = split_str (CHR '' '') expr ! 4\<rparr>
      \<and> split_str (CHR '' '') expr
          = [split_str (CHR '' '') expr ! 0, split_str (CHR '' '') expr ! 1,
             split_str (CHR '' '') expr ! 2, split_str (CHR '' '') expr ! 3,
             split_str (CHR '' '') expr ! 4])
   \<and> (length (split_str (CHR '' '') expr) \<noteq> 5 \<longrightarrow>
        RoutineJob_new nm expr lg = Inl (Error ''Invalid cron expression''))
   \<and> (CHR '' '' \<notin> set a \<and> CHR '' '' \<notin> set b \<and> CHR '' '' \<notin> set c \<and> CHR '' '' \<notin> set d
        \<and> CHR '' '' \<notin> set e \<longrightarrow>
        RoutineJob_new nm (a @ CHR '' '' # b @ CHR '' '' # c @ CHR '' '' # d @ CHR '' '' # e) lg
          = Inr \<lparr>name = nm, logger = lg, lastRun = None,
                 minute = a, hour = b, day = c, month = d, weekday = e\<rparr>)"
proof (intro conjI impI)
  assume "length (split_str (CHR '' '') expr) = 5"
  then show "RoutineJob_new nm expr lg
        = Inr \<lparr>name = nm, logger = lg, lastRun = None,
               minute = split_str (CHR '' '') expr ! 0, hour = split_str (CHR '' '') expr ! 1,
               day = split_str (CHR '' '') expr ! 2, month = split_str (CHR '' '') expr ! 3,
               weekday = split_str (CHR '' '') expr ! 4\<rparr>"
    by (simp add: RoutineJob_new_def Let_def)
next
  assume "length (split_str (CHR '' '') expr) = 5"
  then show "split_str (CHR '' '') expr
          = [split_str (CHR '' '') expr ! 0, split_str (CHR '' '') expr ! 1,
             split_str (CHR '' '') expr ! 2, split_str (CHR '' '') expr ! 3,
             split_str (CHR '' '') expr ! 4]"
    by (rule length_5_nths)
next
  assume "length (split_str (CHR '' '') expr) \<noteq> 5"
  then show "RoutineJob_new nm expr lg = Inl (Error ''Invalid cron expression'')"
    by (simp add: RoutineJob_new_def)
next
  assume "CHR '' '' \<notin> set a \<and> CHR '' '' \<notin> set b \<and> CHR '' '' \<notin> set c \<and> CHR '' '' \<notin> set d
        \<and> CHR '' '' \<notin> set e"
  then have "split_str (CHR '' '') (a @ CHR '' '' # b @ CHR '' '' # c @ CHR '' '' # d @ CHR '' '' # e)
      = [a, b, c, d, e]"
    by (simp add: split_str_five)
  then show "RoutineJob_new nm (a @ CHR '' '' # b @ CHR '' '' # c @ CHR '' '' # d @ CHR '' '' # e) lg
          = Inr \<lparr>name = nm, logger = lg, lastRun = None,
                 minute = a, hour = b, day = c, month = d, weekday = e\<rparr>"
    by (simp add: RoutineJob_new_def)
qed

text \<open>
  The expression of the scenario, an expression of four fields, and five pieces that are
  no cron fields at all.
\<close>

theorem RoutineJob_new_five_fields_witness:
  "length (split_str (CHR '' '') ''0 9 * * 1'') = 5
   \<and> RoutineJob_new ''weekly'' ''0 9 * * 1'' () = Inr weekly_job
   \<and> length (split_str (CHR '' '') ''0 9 * *'') \<noteq> 5
   \<and> RoutineJob_new ''weekly'' ''0 9 * *'' () = Inl (Error ''Invalid cron expression'')
   \<and> CHR '' '' \<notin> set ''a,b'' \<and> CHR '' '' \<notin> set ''x-y'' \<and> CHR '' '' \<notin> set ''?''
   \<and> CHR '' '' \<notin> set '''' \<and> CHR '' '' \<notin> set ''7''
   \<and> RoutineJob_new ''odd'' ''a,b x-y ?  7'' ()
       = Inr \<lparr>name = ''odd'', logger = (), lastRun = None,
              minute = ''a,b'', hour = ''x-y'', day = ''?'', month = '''', weekday = ''7''\<rparr>"
proof -
  have h1: "length (split_str (CHR '' '') ''0 9 * * 1'') = 5" by simp
  have h2: "length (split_str (CHR '' '') ''0 9 * *'') \<noteq> 5" by simp
  have h3: "CHR '' '' \<notin> set ''a,b'' \<and> CHR '' '' \<notin> set ''x-y'' \<and> CHR '' '' \<notin> set ''?''
            \<and> CHR '' '' \<notin> set '''' \<and> CHR '' '' \<notin> set ''7''" by simp
  have c1: "RoutineJob_new ''weekly'' ''0 9 * * 1'' () = Inr weekly_job"
    using h1 RoutineJob_new_five_fields [of "''0 9 * * 1''" "''weekly''" "()"]
    by (simp add: weekly_job_def)
  have c2: "RoutineJob_new ''weekly'' ''0 9 * *'' () = Inl (Error ''Invalid cron expression'')"
    using h2 RoutineJob_new_five_fields [of "''0 9 * *''" "''weekly''" "()"] by blast
  have c3: "RoutineJob_new ''odd'' ''a,b x-y ?  7'' ()
       = Inr \<lparr>name = ''odd'', logger = (), lastRun = None,
              minute = ''a,b'', hour = ''x-y'', day = ''?'', month = '''', weekday = ''7''\<rparr>"
    using h3 RoutineJob_new_five_fields
      [where a = "''a,b''" and b = "''x-y''" and c = "''?''" and d = "''''" and e = "''7''"
        and nm = "''odd''" and lg = "()"]
    by simp
  show ?thesis
    using h1 h2 h3 c1 c2 c3 by simp
qed

end
